theory Spec2Isabelle
  imports Main
begin

section \<open>Text, bytes and exceptions\<close>

text \<open>
  A Python \<open>str\<close> is a sequence of Unicode code points and is modelled as a list of
  naturals; \<open>cp\<close> turns an ASCII literal into that form. \<open>str.lower()\<close> is modelled on the
  letters A to Z only: every keyword the program searches for consists of ASCII letters, ASCII
  digits or caseless Hangul syllables, and no code point outside A to Z lowers to such a
  sequence (the two code points that lower to an ASCII letter at all are U+212A, which gives
  \<open>k\<close>, and U+0130, which gives \<open>i\<close> followed by U+0307).
\<close>

type_synonym pystr = "nat list"

definition cp :: "string \<Rightarrow> pystr" where
  "cp s = map of_char s"

definition lower_cp :: "nat \<Rightarrow> nat" where
  "lower_cp c = (if 65 \<le> c \<and> c \<le> 90 then c + 32 else c)"

definition lower :: "pystr \<Rightarrow> pystr" where
  "lower s = map lower_cp s"

text \<open>\<open>replace_p s\<close> is \<open>s.replace('p', '')\<close>.\<close>

definition replace_p :: "pystr \<Rightarrow> pystr" where
  "replace_p s = filter (\<lambda>c. c \<noteq> 112) s"

text \<open>\<open>contains s p\<close> is Python's \<open>p in s\<close> on strings.\<close>

fun contains :: "pystr \<Rightarrow> pystr \<Rightarrow> bool" where
  "contains [] p = (p = [])"
| "contains (c # cs) p = (take (length p) (c # cs) = p \<or> contains cs p)"

text \<open>
  The regular expression class \<open>\d\<close> on \<open>str\<close> and the digits that \<open>int()\<close> reads
  are the decimal digits of Unicode (category Nd): blocks of ten consecutive code points with
  the values 0 to 9, 66 of them in Unicode 14.0 (ASCII, Arabic-Indic, Devanagari, fullwidth and
  so on). \<open>digit_zeros\<close> lists the code point of the zero of every block.
\<close>

definition digit_zeros :: "nat list" where
  "digit_zeros =
     [
      48, 1632, 1776, 1984, 2406, 2534, 2662, 2790, 2918, 3046, 3174,
      3302, 3430, 3558, 3664, 3792, 3872, 4160, 4240, 6112, 6160, 6470,
      6608, 6784, 6800, 6992, 7088, 7232, 7248, 42528, 43216, 43264, 43472,
      43504, 43600, 44016, 65296, 66720, 68912, 69734, 69872, 69942, 70096, 70384,
      70736, 70864, 71248, 71360, 71472, 71904, 72016, 72784, 73040, 73120, 92768,
      92864, 93008, 120782, 120792, 120802, 120812, 120822, 123200, 123632, 125264, 130032
     ]"

definition digit_value :: "nat \<Rightarrow> nat option" where
  "digit_value c = map_option (\<lambda>z. c - z) (find (\<lambda>z. z \<le> c \<and> c \<le> z + 9) digit_zeros)"

definition is_digit :: "nat \<Rightarrow> bool" where
  "is_digit c = (digit_value c \<noteq> None)"

definition digits_val :: "pystr \<Rightarrow> nat" where
  "digits_val ds =
     foldl (\<lambda>acc c. 10 * acc + (case digit_value c of Some v \<Rightarrow> v | None \<Rightarrow> 0)) 0 ds"

datatype exn =
    UnicodeDecodeError
  | ValueError
  | AttributeError
  | IntegrityError
  | FloodWaitError nat
  | AuthKeyDuplicatedError
  | OtherError string

text \<open>\<open>int(s)\<close> for the strings that reach it: a non-empty run of decimal digits, anything else
  raises.\<close>

definition py_int :: "pystr \<Rightarrow> exn + int" where
  "py_int s = (if s \<noteq> [] \<and> list_all is_digit s then Inr (int (digits_val s)) else Inl ValueError)"

text \<open>
  \<open>bytes.decode()\<close>: strict UTF-8. A byte is a natural below 256; the result is the decoded
  code points, or \<open>None\<close> where Python raises \<open>UnicodeDecodeError\<close> (a stray or missing
  continuation byte, an overlong form, a surrogate, a value above U+10FFFF).
\<close>

definition cont :: "nat \<Rightarrow> bool" where
  "cont b = (128 \<le> b \<and> b \<le> 191)"

fun utf8_decode :: "nat list \<Rightarrow> pystr option" where
  "utf8_decode [] = Some []"
| "utf8_decode (b # bs) =
     (if b < 128 then map_option ((#) b) (utf8_decode bs)
      else if 194 \<le> b \<and> b \<le> 223 then
        (case bs of
           c1 # r \<Rightarrow>
             if cont c1 then map_option ((#) ((b - 192) * 64 + (c1 - 128))) (utf8_decode r)
             else None
         | _ \<Rightarrow> None)
      else if 224 \<le> b \<and> b \<le> 239 then
        (case bs of
           c1 # c2 # r \<Rightarrow>
             if cont c1 \<and> cont c2 \<and> (b = 224 \<longrightarrow> 160 \<le> c1) \<and> (b = 237 \<longrightarrow> c1 \<le> 159) then
               map_option ((#) ((b - 224) * 4096 + (c1 - 128) * 64 + (c2 - 128))) (utf8_decode r)
             else None
         | _ \<Rightarrow> None)
      else if 240 \<le> b \<and> b \<le> 244 then
        (case bs of
           c1 # c2 # c3 # r \<Rightarrow>
             if cont c1 \<and> cont c2 \<and> cont c3 \<and> (b = 240 \<longrightarrow> 144 \<le> c1) \<and> (b = 244 \<longrightarrow> c1 \<le> 143) then
               map_option
                 ((#) ((b - 240) * 262144 + (c1 - 128) * 4096 + (c2 - 128) * 64 + (c3 - 128)))
                 (utf8_decode r)
             else None
         | _ \<Rightarrow> None)
      else None)"


section \<open>Format selection (userbot/client.py, find_matching_format_callback)\<close>

text \<open>
  An inline button carries a label and, for callback buttons, a payload: \<open>bytes\<close> as the
  client library delivers it, or any other value that \<open>str()\<close> renders. The fields
  \<open>btn_text\<close> and \<open>btn_data\<close> are \<open>text\<close> and \<open>data\<close> of the source;
  \<open>btn_data = None\<close> stands for a button without a \<open>data\<close> attribute. A message's
  \<open>reply_markup\<close> is \<open>None\<close> when there is no markup or the markup has no
  \<open>rows\<close>.
\<close>

datatype payload = Bytes "nat list" | Str pystr

record button =
  btn_text :: pystr
  btn_data :: "payload option"

record message_markup =
  reply_markup :: "button list list option"

text \<open>\<open>hasattr(button, 'data') and button.data and hasattr(button, 'text')\<close>\<close>

definition usable :: "button \<Rightarrow> bool" where
  "usable b = (case btn_data b of None \<Rightarrow> False | Some (Bytes bs) \<Rightarrow> bs \<noteq> [] | Some (Str s) \<Rightarrow> s \<noteq> [])"

text \<open>\<open>button.data.decode() if isinstance(button.data, bytes) else str(button.data)\<close>\<close>

definition button_data :: "button \<Rightarrow> exn + pystr" where
  "button_data b =
     (case btn_data b of
        Some (Bytes bs) \<Rightarrow> (case utf8_decode bs of None \<Rightarrow> Inl UnicodeDecodeError | Some s \<Rightarrow> Inr s)
      | Some (Str s) \<Rightarrow> Inr s
      | None \<Rightarrow> Inl AttributeError)"

definition hangul_zvuk :: pystr where
  "hangul_zvuk = [54693, 50348, 54696]"

definition hangul_audio :: pystr where
  "hangul_audio = [54687, 54814, 54690, 54694]"

text \<open>\<open>format_patterns.get(key, [])\<close>\<close>

definition format_patterns :: "pystr \<Rightarrow> pystr list" where
  "format_patterns k =
     (if k = cp ''360p'' then [cp ''360'', cp ''360p'']
      else if k = cp ''480p'' then [cp ''480'', cp ''480p'']
      else if k = cp ''720p'' then [cp ''720'', cp ''720p'', cp ''hd'']
      else if k = cp ''mp3'' then [cp ''mp3'', cp ''audio'', hangul_zvuk]
      else [])"

definition audio_words :: "pystr list" where
  "audio_words = [hangul_audio, cp ''audio'', hangul_zvuk, cp ''mp3'']"

text \<open>
  The first pass: every usable button has its payload decoded, then its lowered label is
  searched for each pattern; the first hit returns the payload.
\<close>

fun keyword_scan :: "pystr list \<Rightarrow> button list \<Rightarrow> exn + pystr option" where
  "keyword_scan ps [] = Inr None"
| "keyword_scan ps (b # bs) =
     (if usable b then
        (case button_data b of
           Inl e \<Rightarrow> Inl e
         | Inr d \<Rightarrow>
             if list_ex (\<lambda>p. contains (lower (btn_text b)) (lower p)) ps then Inr (Some d)
             else keyword_scan ps bs)
      else keyword_scan ps bs)"

text \<open>The audio fallback: the payload is decoded only for the button that matches.\<close>

fun audio_scan :: "button list \<Rightarrow> exn + pystr option" where
  "audio_scan [] = Inr None"
| "audio_scan (b # bs) =
     (if usable b \<and> list_ex (\<lambda>w. contains (lower (btn_text b)) w) audio_words then
        (case button_data b of Inl e \<Rightarrow> Inl e | Inr d \<Rightarrow> Inr (Some d))
      else audio_scan bs)"

text \<open>
  \<open>re.search(r'(\d{3,4})p?', s)\<close>, group 1 as an integer: the leftmost place where three
  digits stand, with a fourth digit taken when it follows.
\<close>

fun res_search :: "pystr \<Rightarrow> nat option" where
  "res_search (a # b # c # rest) =
     (if is_digit a \<and> is_digit b \<and> is_digit c then
        (case rest of
           [] \<Rightarrow> Some (digits_val [a, b, c])
         | d # _ \<Rightarrow> if is_digit d then Some (digits_val [a, b, c, d]) else Some (digits_val [a, b, c]))
      else res_search (b # c # rest))"
| "res_search _ = None"

text \<open>
  The resolution fallback keeps \<open>closest_button\<close> and \<open>closest_diff\<close> together:
  \<open>None\<close> is the initial state (no button, difference infinite).
\<close>

fun closest_scan :: "int \<Rightarrow> (button \<times> int) option \<Rightarrow> button list \<Rightarrow> (button \<times> int) option" where
  "closest_scan target best [] = best"
| "closest_scan target best (b # bs) =
     (if usable b then
        (case res_search (lower (btn_text b)) of
           None \<Rightarrow> closest_scan target best bs
         | Some r \<Rightarrow>
             (let diff = \<bar>int r - target\<bar> in
              if (case best of None \<Rightarrow> True | Some (_, closest_diff) \<Rightarrow> diff < closest_diff)
              then closest_scan target (Some (b, diff)) bs
              else closest_scan target best bs))
      else closest_scan target best bs)"

text \<open>The body of the \<open>try\<close> block; rows are visited in order, so the buttons are \<open>concat rows\<close>.\<close>

definition find_matching_format_callback_body :: "message_markup \<Rightarrow> pystr \<Rightarrow> exn + pystr option" where
  "find_matching_format_callback_body format_message desired_format =
     (case reply_markup format_message of
        None \<Rightarrow> Inr None
      | Some rows \<Rightarrow>
          (let patterns = format_patterns (lower desired_format) in
           if patterns = [] then Inr None
           else
             (case keyword_scan patterns (concat rows) of
                Inl e \<Rightarrow> Inl e
              | Inr (Some d) \<Rightarrow> Inr (Some d)
              | Inr None \<Rightarrow>
                  if lower desired_format = cp ''mp3'' then audio_scan (concat rows)
                  else
                    (case py_int (replace_p desired_format) of
                       Inl e \<Rightarrow> Inl e
                     | Inr target_res \<Rightarrow>
                         (case closest_scan target_res None (concat rows) of
                            None \<Rightarrow> Inr None
                          | Some (closest_button, _) \<Rightarrow>
                              (case button_data closest_button of
                                 Inl e \<Rightarrow> Inl e
                               | Inr d \<Rightarrow> Inr (Some d)))))))"

text \<open>\<open>except Exception\<close>: every exception of the body becomes the result \<open>None\<close>.\<close>

definition find_matching_format_callback :: "message_markup \<Rightarrow> pystr \<Rightarrow> pystr option" where
  "find_matching_format_callback format_message desired_format =
     (case find_matching_format_callback_body format_message desired_format of
        Inl e \<Rightarrow> None
      | Inr r \<Rightarrow> r)"


subsection \<open>The selection rule in the words of the specification\<close>

text \<open>
  An offer is a label with its selection token. The offers of a message are its usable buttons,
  each with its payload as text. The rule: (1) the first offer whose lowered label contains a
  keyword of the desired format; (2) for a resolution, the offer whose 3 to 4 digit number is
  nearest to the desired resolution (the first of several equally near); (3) for audio, the
  first offer whose label contains an audio word; otherwise none.
\<close>

definition decodable :: "button \<Rightarrow> bool" where
  "decodable b = (case btn_data b of Some (Bytes bs) \<Rightarrow> utf8_decode bs \<noteq> None | _ \<Rightarrow> True)"

definition token :: "button \<Rightarrow> pystr" where
  "token b = (case button_data b of Inr t \<Rightarrow> t | Inl _ \<Rightarrow> [])"

type_synonym offer = "pystr \<times> pystr"

definition offers_of :: "message_markup \<Rightarrow> offer list" where
  "offers_of m =
     (case reply_markup m of
        None \<Rightarrow> []
      | Some rows \<Rightarrow> map (\<lambda>b. (btn_text b, token b)) (filter usable (concat rows)))"

definition keyword_set :: "pystr \<Rightarrow> pystr list" where
  "keyword_set desired =
     (if desired = cp ''360p'' then [cp ''360'', cp ''360p'']
      else if desired = cp ''480p'' then [cp ''480'', cp ''480p'']
      else if desired = cp ''720p'' then [cp ''720'', cp ''720p'', cp ''hd'']
      else [cp ''mp3'', cp ''audio'', hangul_zvuk])"

definition desired_resolution :: "pystr \<Rightarrow> int" where
  "desired_resolution desired =
     (if desired = cp ''360p'' then 360 else if desired = cp ''480p'' then 480 else 720)"

definition label_matches :: "pystr list \<Rightarrow> offer \<Rightarrow> bool" where
  "label_matches ks ofr = list_ex (\<lambda>k. contains (lower (fst ofr)) k) ks"

definition has_number :: "offer \<Rightarrow> bool" where
  "has_number ofr = (res_search (lower (fst ofr)) \<noteq> None)"

definition distance :: "int \<Rightarrow> offer \<Rightarrow> int" where
  "distance target ofr = \<bar>int (the (res_search (lower (fst ofr)))) - target\<bar>"

definition select_spec :: "offer list \<Rightarrow> pystr \<Rightarrow> pystr option" where
  "select_spec offers desired =
     (case find (label_matches (keyword_set desired)) offers of
        Some ofr \<Rightarrow> Some (snd ofr)
      | None \<Rightarrow>
          if desired = cp ''mp3'' then map_option snd (find (label_matches audio_words) offers)
          else if filter has_number offers = [] then None
          else Some (snd (arg_min_list (distance (desired_resolution desired)) (filter has_number offers))))"

lemma button_data_decodable: "usable b \<Longrightarrow> decodable b \<Longrightarrow> button_data b = Inr (token b)"
  by (auto simp: usable_def decodable_def button_data_def token_def split: option.splits payload.splits)

lemma keyword_scan_find:
  "list_all decodable bs \<Longrightarrow>
   keyword_scan ps bs =
     Inr (map_option snd (find (label_matches (map lower ps)) (map (\<lambda>b. (btn_text b, token b)) (filter usable bs))))"
  by (induction bs) (auto simp: button_data_decodable label_matches_def list_ex_iff)

lemma audio_scan_find:
  "list_all decodable bs \<Longrightarrow>
   audio_scan bs =
     Inr (map_option snd (find (label_matches audio_words) (map (\<lambda>b. (btn_text b, token b)) (filter usable bs))))"
  by (induction bs) (auto simp: button_data_decodable label_matches_def list_ex_iff)

lemma arg_min_list_le_hd: "f (arg_min_list f (x # xs)) \<le> f x"
  using f_arg_min_list_f[of "x # xs" f] by simp

lemma arg_min_list_drop_second:
  assumes ab: "f a \<le> f b"
  shows "arg_min_list f (a # b # cs) = arg_min_list f (a # cs)"
proof (cases cs)
  case Nil
  with ab show ?thesis by simp
next
  case (Cons c cs')
  let ?m = "arg_min_list f (c # cs')"
  show ?thesis
  proof (cases "f a \<le> f ?m")
    case True
    with ab Cons show ?thesis by (simp add: Let_def)
  next
    case False
    with ab have "\<not> f b \<le> f ?m" by simp
    with False Cons show ?thesis by (simp add: Let_def)
  qed
qed

lemma arg_min_list_drop_first:
  assumes "f b < f a"
  shows "arg_min_list f (a # b # cs) = arg_min_list f (b # cs)"
proof -
  have "f (arg_min_list f (b # cs)) \<le> f b" by (rule arg_min_list_le_hd)
  with assms have "\<not> f a \<le> f (arg_min_list f (b # cs))" by simp
  then show ?thesis by (simp add: Let_def)
qed

definition bdist :: "int \<Rightarrow> button \<Rightarrow> int" where
  "bdist target b = \<bar>int (the (res_search (lower (btn_text b)))) - target\<bar>"

definition numbered :: "button \<Rightarrow> bool" where
  "numbered b = (usable b \<and> res_search (lower (btn_text b)) \<noteq> None)"

lemma closest_scan_skip: "\<not> numbered b \<Longrightarrow> closest_scan t best (b # bs) = closest_scan t best bs"
  by (auto simp: numbered_def)

lemma closest_scan_take:
  "numbered b \<Longrightarrow>
   closest_scan t best (b # bs) =
     (if (case best of None \<Rightarrow> True | Some (_, closest_diff) \<Rightarrow> bdist t b < closest_diff)
      then closest_scan t (Some (b, bdist t b)) bs else closest_scan t best bs)"
proof -
  assume "numbered b"
  then obtain r where r: "usable b" "res_search (lower (btn_text b)) = Some r"
    by (auto simp: numbered_def)
  then have "bdist t b = \<bar>int r - t\<bar>" by (simp add: bdist_def)
  with r show ?thesis by (cases best) (auto simp: Let_def)
qed

lemma closest_scan_Some:
  "closest_scan t (Some (b0, bdist t b0)) bs =
     Some (arg_min_list (bdist t) (b0 # filter numbered bs),
           bdist t (arg_min_list (bdist t) (b0 # filter numbered bs)))"
proof (induction bs arbitrary: b0)
  case Nil
  then show ?case by simp
next
  case (Cons b bs)
  show ?case
  proof (cases "numbered b")
    case False
    then show ?thesis using Cons by (simp add: closest_scan_skip del: closest_scan.simps)
  next
    case True
    show ?thesis
    proof (cases "bdist t b < bdist t b0")
      case lt: True
      with True show ?thesis
        using Cons[of b]
        by (simp add: closest_scan_take arg_min_list_drop_first del: arg_min_list.simps closest_scan.simps)
    next
      case False
      then have "bdist t b0 \<le> bdist t b" by simp
      with False True show ?thesis
        using Cons[of b0]
        by (simp add: closest_scan_take arg_min_list_drop_second del: arg_min_list.simps closest_scan.simps)
    qed
  qed
qed

lemma closest_scan_None:
  "closest_scan t None bs =
     (if filter numbered bs = [] then None
      else Some (arg_min_list (bdist t) (filter numbered bs),
                 bdist t (arg_min_list (bdist t) (filter numbered bs))))"
proof (induction bs)
  case Nil
  then show ?case by simp
next
  case (Cons b bs)
  show ?case
  proof (cases "numbered b")
    case False
    then show ?thesis using Cons by (simp add: closest_scan_skip del: closest_scan.simps)
  next
    case True
    then show ?thesis
      by (simp add: closest_scan_take closest_scan_Some del: arg_min_list.simps closest_scan.simps)
  qed
qed

lemma arg_min_list_map:
  "xs \<noteq> [] \<Longrightarrow> arg_min_list f (map g xs) = g (arg_min_list (\<lambda>x. f (g x)) xs)"
proof (induction xs rule: induct_list012)
  case 1
  then show ?case by simp
next
  case (2 x)
  then show ?case by simp
next
  case (3 x y zs)
  then show ?case by (simp add: Let_def)
qed

lemma arg_min_list_numbered: "filter numbered bs \<noteq> [] \<Longrightarrow> numbered (arg_min_list f (filter numbered bs))"
  using arg_min_list_in[of "filter numbered bs" f] by auto


definition supported_format :: "pystr \<Rightarrow> bool" where
  "supported_format desired = (desired \<in> set [cp ''360p'', cp ''480p'', cp ''720p'', cp ''mp3''])"

definition buttons_of :: "message_markup \<Rightarrow> button list" where
  "buttons_of m = (case reply_markup m of None \<Rightarrow> [] | Some rows \<Rightarrow> concat rows)"

abbreviation offer_of :: "button \<Rightarrow> offer" where
  "offer_of b \<equiv> (btn_text b, token b)"

lemma supported_cases:
  assumes "supported_format d"
  obtains "d = cp ''360p''" | "d = cp ''480p''" | "d = cp ''720p''" | "d = cp ''mp3''"
  using assms by (auto simp: supported_format_def)

lemma supported_facts:
  assumes "supported_format d"
  shows "lower d = d"
    and "format_patterns d \<noteq> []"
    and "map lower (format_patterns d) = keyword_set d"
    and "d \<noteq> cp ''mp3'' \<Longrightarrow> py_int (replace_p d) = Inr (desired_resolution d)"
  using assms
  by (auto elim!: supported_cases
      simp: cp_def lower_def lower_cp_def format_patterns_def keyword_set_def hangul_zvuk_def
        py_int_def replace_p_def desired_resolution_def is_digit_def digits_val_def
        digit_value_def digit_zeros_def)

lemma filter_has_number:
  "filter has_number (map offer_of (filter usable bs)) = map offer_of (filter numbered bs)"
  by (induction bs) (auto simp: has_number_def numbered_def)

lemma distance_offer_of: "distance t (offer_of b) = bdist t b"
  by (simp add: distance_def bdist_def)

lemma closest_offer:
  assumes dec: "list_all decodable bs" and ne: "filter numbered bs \<noteq> []"
  shows "button_data (arg_min_list (bdist t) (filter numbered bs)) =
         Inr (snd (arg_min_list (distance t) (filter has_number (map offer_of (filter usable bs)))))"
proof -
  let ?m = "arg_min_list (bdist t) (filter numbered bs)"
  have "?m \<in> set (filter numbered bs)" using ne by (rule arg_min_list_in)
  then have "usable ?m" "decodable ?m"
    using dec by (auto simp: numbered_def list_all_iff)
  then have "button_data ?m = Inr (token ?m)" by (rule button_data_decodable)
  moreover have "arg_min_list (distance t) (map offer_of (filter numbered bs)) = offer_of ?m"
    using ne by (simp add: arg_min_list_map distance_offer_of)
  ultimately show ?thesis by (simp add: filter_has_number)
qed

lemma body_refines:
  assumes sup: "supported_format desired" and dec: "list_all decodable (buttons_of m)"
  shows "find_matching_format_callback_body m desired = Inr (select_spec (offers_of m) desired)"
proof (cases "reply_markup m")
  case None
  then show ?thesis
    by (simp add: find_matching_format_callback_body_def select_spec_def offers_of_def)
next
  case (Some rows)
  let ?bs = "concat rows"
  let ?os = "map offer_of (filter usable ?bs)"
  from Some dec have d: "list_all decodable ?bs" by (simp add: buttons_of_def)
  have os: "offers_of m = ?os" using Some by (simp add: offers_of_def)
  have ks: "keyword_scan (format_patterns desired) ?bs =
            Inr (map_option snd (find (label_matches (keyword_set desired)) ?os))"
    using d sup by (simp add: keyword_scan_find supported_facts)
  show ?thesis
  proof (cases "find (label_matches (keyword_set desired)) ?os")
    case hit: (Some ofr)
    with Some ks os sup show ?thesis
      by (simp add: find_matching_format_callback_body_def select_spec_def supported_facts Let_def)
  next
    case miss: None
    show ?thesis
    proof (cases "desired = cp ''mp3''")
      case True
      with Some ks os sup miss d show ?thesis
        by (simp add: find_matching_format_callback_body_def select_spec_def supported_facts
            Let_def audio_scan_find)
    next
      case False
      with sup have pi: "py_int (replace_p desired) = Inr (desired_resolution desired)"
        by (simp add: supported_facts)
      show ?thesis
      proof (cases "filter numbered ?bs = []")
        case True
        with Some ks os sup miss False pi show ?thesis
          by (simp add: find_matching_format_callback_body_def select_spec_def supported_facts
              Let_def closest_scan_None filter_has_number)
      next
        case ne: False
        have hn: "filter has_number ?os \<noteq> []" using ne by (simp add: filter_has_number)
        from Some ks os sup miss False pi ne hn closest_offer[OF d ne, of "desired_resolution desired"]
        show ?thesis
          by (simp add: find_matching_format_callback_body_def select_spec_def supported_facts
              Let_def closest_scan_None)
      qed
    qed
  qed
qed

lemma select_spec_member:
  "select_spec offers desired = Some t \<Longrightarrow> t \<in> snd ` set offers"
proof -
  assume a: "select_spec offers desired = Some t"
  have f: "\<And>P x. find P offers = Some x \<Longrightarrow> x \<in> set offers"
    by (auto simp: find_Some_iff)
  have g: "filter has_number offers \<noteq> [] \<Longrightarrow>
           arg_min_list (distance (desired_resolution desired)) (filter has_number offers) \<in> set offers"
    using arg_min_list_in[of "filter has_number offers"] by auto
  from a show ?thesis
    by (force simp: select_spec_def split: option.splits if_splits dest!: f g)
qed

definition three_offers :: message_markup where
  "three_offers = \<lparr>reply_markup = Some
     [[\<lparr>btn_text = cp ''360'', btn_data = Some (Bytes (cp ''t360''))\<rparr>,
       \<lparr>btn_text = cp ''480'', btn_data = Some (Bytes (cp ''t480''))\<rparr>],
      [\<lparr>btn_text = cp ''720'', btn_data = Some (Bytes (cp ''t720''))\<rparr>]]\<rparr>"

definition undecodable_first :: message_markup where
  "undecodable_first = \<lparr>reply_markup = Some
     [[\<lparr>btn_text = cp ''360'', btn_data = Some (Bytes [255])\<rparr>,
       \<lparr>btn_text = cp ''480'', btn_data = Some (Bytes (cp ''t480''))\<rparr>]]\<rparr>"


definition undecodable_last :: message_markup where
  "undecodable_last = \<lparr>reply_markup = Some
     [[\<lparr>btn_text = cp ''480'', btn_data = Some (Bytes (cp ''t480''))\<rparr>,
       \<lparr>btn_text = cp ''720'', btn_data = Some (Bytes [255])\<rparr>]]\<rparr>"

text \<open>
  Where the payload of every button decodes as UTF-8, the function computes the selection rule
  of the specification for each of the four supported formats (keyword match first, then
  nearest resolution or the audio words, else none), and a token it returns is the token of one
  of the offers.
\<close>

lemma select_refines:
  assumes "supported_format desired" and "list_all decodable (buttons_of m)"
  shows "find_matching_format_callback m desired = select_spec (offers_of m) desired
       \<and> (\<forall>t. find_matching_format_callback m desired = Some t \<longrightarrow> t \<in> snd ` set (offers_of m))"
  using body_refines[OF assms] select_spec_member[of "offers_of m" desired]
  by (simp add: find_matching_format_callback_def)

lemma select_refines_example:
  "supported_format (cp ''720p'') \<and> list_all decodable (buttons_of three_offers)
   \<and> find_matching_format_callback three_offers (cp ''720p'') = Some (cp ''t720'')"
proof -
  have s: "supported_format (cp ''720p'')" by (simp add: supported_format_def)
  have d: "list_all decodable (buttons_of three_offers)"
    by (simp add: buttons_of_def three_offers_def decodable_def cp_def)
  have "select_spec (offers_of three_offers) (cp ''720p'') = Some (cp ''t720'')"
    by (simp add: three_offers_def offers_of_def select_spec_def label_matches_def
        keyword_set_def token_def button_data_def usable_def cp_def lower_def lower_cp_def)
  with s d select_refines[OF s d] show ?thesis by simp
qed

text \<open>A label in Arabic-Indic digits is read as the number it writes, as \<open>\d\<close> and \<open>int()\<close> do.\<close>

lemma res_search_arabic_indic: "res_search [1639, 1634, 1632, 112] = Some 720"
  by (simp add: is_digit_def digits_val_def digit_value_def digit_zeros_def)

text \<open>
  Claim C6 at a list of offers whose first payload is not valid UTF-8. The desired format is
  \<open>480p\<close> and the label \<open>480\<close> of the second offer contains the keyword, so rule (1)
  selects its token. The first pass of the function decodes the payload of every usable button
  before it looks at the label; the decoding error of the first button is caught by the
  function's handler and the result is none. The fallback passes decode only the payload of
  the button they have chosen, and the first pass itself never decodes a button behind the
  match: with the undecodable payload in second place the token of the \<open>480\<close> offer is
  returned.
\<close>

theorem select_undecodable_counterexample:
  "supported_format (cp ''480p'')
   \<and> label_matches (keyword_set (cp ''480p'')) (cp ''480'', cp ''t480'')
   \<and> select_spec (offers_of undecodable_first) (cp ''480p'') = Some (cp ''t480'')
   \<and> find_matching_format_callback undecodable_first (cp ''480p'') = None
   \<and> find_matching_format_callback undecodable_last (cp ''480p'') = Some (cp ''t480'')"
  by (simp add: supported_format_def undecodable_first_def undecodable_last_def offers_of_def
      select_spec_def label_matches_def keyword_set_def token_def button_data_def usable_def
      cp_def lower_def lower_cp_def find_matching_format_callback_def
      find_matching_format_callback_body_def format_patterns_def)

subsection \<open>The worked example of the specification\<close>






section \<open>The cache table (db/database.py)\<close>

text \<open>
  The table \<open>videos\<close> is a list of rows in insertion order with a UNIQUE constraint on
  \<open>url\<close>; \<open>users\<close> holds the user ids with their download counts. The statistics tables
  are left out: \<open>_update_daily_stats\<close> catches its own exceptions and touches neither
  \<open>videos\<close> nor a return value. Every operation takes \<open>fault\<close>, the exception that one of
  its sqlite calls raises (\<open>None\<close>: none does); \<open>exn\<close> stands for the subclasses of
  \<open>Exception\<close>, the ones an \<open>except Exception\<close> clause catches. A fault strikes before the
  commit, so a faulting write leaves the table as it was.
\<close>

record video_row =
  row_url :: string
  channel_message_id :: nat
  platform :: string
  timestamp :: nat

record database =
  videos :: "video_row list"
  users :: "(nat \<times> nat) list"

text \<open>The \<open>try\<close> block of \<open>add_video\<close>: the INSERT raises IntegrityError on a known url.\<close>

definition add_video_body :: "exn option \<Rightarrow> nat \<Rightarrow> database \<Rightarrow> string \<Rightarrow> nat \<Rightarrow> string \<Rightarrow> exn + database" where
  "add_video_body fault now db url message_id plat =
     (case fault of
        Some e \<Rightarrow> Inl e
      | None \<Rightarrow>
          if list_ex (\<lambda>r. row_url r = url) (videos db) then Inl IntegrityError
          else Inr (db\<lparr>videos := videos db @
                 [\<lparr>row_url = url, channel_message_id = message_id, platform = plat, timestamp = now\<rparr>]\<rparr>))"

text \<open>Both \<open>except\<close> clauses of \<open>add_video\<close> return False.\<close>

definition add_video :: "exn option \<Rightarrow> nat \<Rightarrow> database \<Rightarrow> string \<Rightarrow> nat \<Rightarrow> string \<Rightarrow> database \<times> bool" where
  "add_video fault now db url message_id plat =
     (case add_video_body fault now db url message_id plat of
        Inr db' \<Rightarrow> (db', True)
      | Inl IntegrityError \<Rightarrow> (db, False)
      | Inl e \<Rightarrow> (db, False))"

definition get_video_body :: "exn option \<Rightarrow> database \<Rightarrow> string \<Rightarrow> exn + (nat \<times> nat) option" where
  "get_video_body fault db url =
     (case fault of
        Some e \<Rightarrow> Inl e
      | None \<Rightarrow>
          (case find (\<lambda>r. row_url r = url) (videos db) of
             Some row \<Rightarrow> Inr (Some (channel_message_id row, timestamp row))
           | None \<Rightarrow> Inr None))"

definition get_video :: "exn option \<Rightarrow> database \<Rightarrow> string \<Rightarrow> (nat \<times> nat) option" where
  "get_video fault db url = (case get_video_body fault db url of Inl e \<Rightarrow> None | Inr r \<Rightarrow> r)"






text \<open>\<open>UPDATE users SET total_downloads = total_downloads + 1 WHERE id = ?\<close>; an error is logged.\<close>

definition increment_user_downloads :: "exn option \<Rightarrow> database \<Rightarrow> nat \<Rightarrow> database" where
  "increment_user_downloads fault db uid =
     (case fault of
        Some e \<Rightarrow> db
      | None \<Rightarrow> db\<lparr>users := map (\<lambda>(i, n). if i = uid then (i, n + 1) else (i, n)) (users db)\<rparr>)"


text \<open>The UNIQUE constraint as an invariant of the table.\<close>

definition unique_urls :: "database \<Rightarrow> bool" where
  "unique_urls db = distinct (map row_url (videos db))"

lemma find_None_count: "find (\<lambda>r. row_url r = url) rs = None \<longleftrightarrow> filter (\<lambda>r. row_url r = url) rs = []"
  by (induction rs) auto

lemma add_video_unique: "unique_urls db \<Longrightarrow> unique_urls (fst (add_video fault now db url mid plat))"
  by (auto simp: add_video_def add_video_body_def unique_urls_def list_ex_iff
      split: option.splits exn.splits)



section \<open>The processing queue (bot/handlers.py)\<close>

text \<open>
  A \<open>ProcessingRequest\<close>. \<open>chat_private\<close> is \<open>message.chat.type == 'private'\<close>,
  \<open>loading_message\<close> tells whether the request carries a loading message, \<open>completed\<close>
  is the state of the \<open>asyncio.Event\<close>, and \<open>error\<close> holds the exception whose text the
  worker stores.
\<close>

record processing_request =
  user_id :: nat
  url :: string
  url_type :: string
  chat_private :: bool
  loading_message :: bool
  result :: "nat option"
  error :: "exn option"
  completed :: bool

text \<open>
  What the awaited calls of one worker iteration do: the value or exception of the
  \<open>process_..._url\<close> call, the fault of each database call, and for each message sent to the
  user whether sending raises.
\<close>

record job_env =
  process_outcome :: "exn + nat option"
  add_video_fault :: "exn option"
  increment_fault :: "exn option"
  copy_message_raises :: "exn option"
  copy_failed_reply_raises :: "exn option"
  failure_reply_raises :: "exn option"
  delete_loading_raises :: "exn option"
  error_reply_raises :: "exn option"
  now :: nat

text \<open>Python truthiness of an \<open>Optional[int]\<close>.\<close>

definition truthy :: "nat option \<Rightarrow> bool" where
  "truthy v = (case v of None \<Rightarrow> False | Some n \<Rightarrow> n \<noteq> 0)"

text \<open>The dispatch on \<open>url_type\<close>; any other type gives None without a call.\<close>

definition dispatch_process :: "job_env \<Rightarrow> processing_request \<Rightarrow> exn + nat option" where
  "dispatch_process env request =
     (if url_type request = ''instagram'' then process_outcome env
      else if url_type request = ''tiktok'' then process_outcome env
      else if url_type request = ''facebook'' then process_outcome env
      else if url_type request = ''twitter'' then process_outcome env
      else Inr None)"

text \<open>
  \<open>send_processed_result\<close>: a failing \<open>copy_message\<close> is caught and answered by a reply,
  which is not guarded. The value is the exception that leaves the function, if any.
\<close>

definition send_processed_result :: "job_env \<Rightarrow> exn option" where
  "send_processed_result env =
     (case copy_message_raises env of None \<Rightarrow> None | Some e \<Rightarrow> copy_failed_reply_raises env)"

text \<open>
  The inner \<open>try\<close> block of the worker: the request and the database as the block leaves
  them, and the exception that leaves it, if any. Deleting the loading message has a handler
  of its own.
\<close>

definition job_try :: "job_env \<Rightarrow> database \<Rightarrow> processing_request \<Rightarrow> processing_request \<times> database \<times> exn option" where
  "job_try env db request =
     (case dispatch_process env request of
        Inl e \<Rightarrow> (request, db, Some e)
      | Inr storage_message_id \<Rightarrow>
          (let request1 = request\<lparr>result := storage_message_id\<rparr> in
           if truthy storage_message_id then
             (let db1 = fst (add_video (add_video_fault env) (now env) db (url request)
                               (the storage_message_id) (url_type request));
                  db2 = increment_user_downloads (increment_fault env) db1 (user_id request)
              in (request1, db2, send_processed_result env))
           else (request1, db, failure_reply_raises env)))"

text \<open>
  One iteration of the worker after the dequeue: the \<open>except\<close> clause stores the error and
  replies; only when nothing leaves it are the completion event set and the marker cleared.
  The last component tells that an exception reached the outer handler of the loop.
\<close>

definition process_job :: "job_env \<Rightarrow> database \<Rightarrow> processing_request \<Rightarrow> processing_request \<times> database \<times> bool" where
  "process_job env db request =
     (case job_try env db request of
        (request1, db1, None) \<Rightarrow> (request1\<lparr>completed := True\<rparr>, db1, False)
      | (request1, db1, Some e) \<Rightarrow>
          (let request2 = request1\<lparr>error := Some e\<rparr> in
           case error_reply_raises env of
             None \<Rightarrow> (request2\<lparr>completed := True\<rparr>, db1, False)
           | Some e' \<Rightarrow> (request2, db1, True)))"

text \<open>
  The module state: the queue, the marker of the user being served, the flag that guards the
  creation of the worker, and the worker tasks created so far, each waiting at
  \<open>processing_queue.get()\<close> or busy with the request it took. \<open>submitted\<close> and
  \<open>finished\<close> record, in order, the requests put into the queue and the requests whose
  iteration has ended, and \<open>inline\<close> lists the handler tasks (user, url, platform) that are
  inside an exchange with a responder of their own, outside the queue; the program does not
  read these three.
\<close>

datatype worker = Waiting | Busy processing_request

record dispatcher =
  processing_queue :: "processing_request list"
  current_processing_user :: "nat option"
  processing_workers_started :: bool
  workers :: "worker list"
  store :: database
  submitted :: "processing_request list"
  finished :: "processing_request list"
  inline :: "(nat \<times> string \<times> string) list"

definition initial :: "database \<Rightarrow> dispatcher" where
  "initial db = \<lparr>processing_queue = [], current_processing_user = None,
     processing_workers_started = False, workers = [], store = db, submitted = [], finished = [],
     inline = []\<rparr>"

definition start_processing_workers :: "dispatcher \<Rightarrow> dispatcher" where
  "start_processing_workers d =
     (if \<not> processing_workers_started d
      then d\<lparr>processing_workers_started := True, workers := workers d @ [Waiting]\<rparr>
      else d)"

definition ProcessingRequest :: "nat \<Rightarrow> bool \<Rightarrow> string \<Rightarrow> string \<Rightarrow> processing_request" where
  "ProcessingRequest uid private u t =
     \<lparr>user_id = uid, url = u, url_type = t, chat_private = private, loading_message = False,
      result = None, error = None, completed = False\<rparr>"

text \<open>\<open>queue_processing_request\<close>; the queue is unbounded, so \<open>put\<close> appends at once.\<close>

definition queue_processing_request :: "nat \<Rightarrow> bool \<Rightarrow> string \<Rightarrow> string \<Rightarrow> dispatcher \<Rightarrow> dispatcher" where
  "queue_processing_request uid private u t d =
     (let d1 = start_processing_workers d;
          request = (ProcessingRequest uid private u t)\<lparr>loading_message := True\<rparr>
      in d1\<lparr>processing_queue := processing_queue d1 @ [request],
             submitted := submitted d1 @ [request]\<rparr>)"

text \<open>
  Worker \<open>i\<close> returns from \<open>processing_queue.get()\<close> with the head of the queue and sets the
  marker; where it is not waiting or the queue is empty nothing happens.
\<close>

definition worker_take :: "nat \<Rightarrow> dispatcher \<Rightarrow> dispatcher" where
  "worker_take i d =
     (if i < length (workers d) \<and> workers d ! i = Waiting then
        (case processing_queue d of
           [] \<Rightarrow> d
         | request # rest \<Rightarrow>
             d\<lparr>processing_queue := rest, workers := (workers d)[i := Busy request],
               current_processing_user := Some (user_id request)\<rparr>)
      else d)"

text \<open>Worker \<open>i\<close> runs the rest of its iteration and is back at the head of the loop.\<close>

definition worker_finish :: "nat \<Rightarrow> job_env \<Rightarrow> dispatcher \<Rightarrow> dispatcher" where
  "worker_finish i env d =
     (if i < length (workers d) then
        (case workers d ! i of
           Waiting \<Rightarrow> d
         | Busy request \<Rightarrow>
             (case process_job env (store d) request of
                (request', db', escaped) \<Rightarrow>
                  d\<lparr>workers := (workers d)[i := Waiting], store := db',
                    finished := finished d @ [request'],
                    current_processing_user :=
                      (if escaped then current_processing_user d else None)\<rparr>))
      else d)"

text \<open>
  \<open>handle_message_with_url\<close>, from the normalised url on. For Instagram, TikTok, Facebook
  and Twitter a cache hit is answered from the archive and the handler returns. On a miss the
  first three are put into the queue. A YouTube url (never looked up here) and a Twitter url
  go to \<open>show_youtube_formats\<close> and \<open>show_twitter_formats\<close>: the handler task itself sends
  the url to the responder and waits for its answer (for Twitter without a keyboard it goes on
  to \<open>process_twitter_url\<close>), so it is entered in \<open>inline\<close>.
\<close>

datatype handled = SentCached nat | Enqueued | YoutubeFormats | TwitterFormats | Unsupported

definition handle_message_with_url ::
    "exn option \<Rightarrow> nat \<Rightarrow> bool \<Rightarrow> string \<Rightarrow> string \<Rightarrow> dispatcher \<Rightarrow> handled \<times> dispatcher" where
  "handle_message_with_url fault uid private normalized_url t d =
     (let existing_video =
            (if t \<in> set [''instagram'', ''tiktok'', ''facebook'', ''twitter'']
             then get_video fault (store d) normalized_url else None)
      in case existing_video of
           Some (message_id, ts) \<Rightarrow> (SentCached message_id, d)
         | None \<Rightarrow>
             if t \<in> set [''instagram'', ''tiktok'', ''facebook'']
             then (Enqueued, queue_processing_request uid private normalized_url t d)
             else if t = ''youtube''
             then (YoutubeFormats, d\<lparr>inline := inline d @ [(uid, normalized_url, t)]\<rparr>)
             else if t = ''twitter''
             then (TwitterFormats, d\<lparr>inline := inline d @ [(uid, normalized_url, t)]\<rparr>)
             else (Unsupported, d))"

text \<open>
  The event loop runs every update in a task of its own and interleaves the handler tasks with
  the steps of the worker in any order: a message with a url is handled, a request is put into
  the queue directly (the reaction handlers do that), the worker takes a request or finishes
  one, a handler task leaves its exchange with the responder.
\<close>

datatype action =
    Submit nat bool string string
  | Take nat
  | Finish nat job_env
  | Message "exn option" nat bool string string
  | InlineDone nat

fun step :: "action \<Rightarrow> dispatcher \<Rightarrow> dispatcher" where
  "step (Submit uid private u t) d = queue_processing_request uid private u t d"
| "step (Take i) d = worker_take i d"
| "step (Finish i env) d = worker_finish i env d"
| "step (Message fault uid private u t) d = snd (handle_message_with_url fault uid private u t d)"
| "step (InlineDone i) d = d\<lparr>inline := take i (inline d) @ drop (Suc i) (inline d)\<rparr>"

definition run :: "action list \<Rightarrow> dispatcher \<Rightarrow> dispatcher" where
  "run acts d = foldl (\<lambda>s a. step a s) d acts"

text \<open>The part of a request that processing never changes.\<close>

definition ident :: "processing_request \<Rightarrow> nat \<times> string \<times> string \<times> bool" where
  "ident r = (user_id r, url r, url_type r, chat_private r)"

definition running :: "dispatcher \<Rightarrow> processing_request list" where
  "running d = concat (map (\<lambda>w. case w of Waiting \<Rightarrow> [] | Busy r \<Rightarrow> [r]) (workers d))"

subsection \<open>One worker, arrival order\<close>

lemma process_job_ident: "process_job env db r = (r', db', esc) \<Longrightarrow> ident r' = ident r"
  by (auto simp: process_job_def job_try_def ident_def Let_def split: sum.splits option.splits if_splits)

lemma process_job_resolved:
  "process_job env db r = (r', db', esc) \<Longrightarrow> completed r' \<or> error r' \<noteq> None"
  by (auto simp: process_job_def job_try_def Let_def split: sum.splits option.splits if_splits)

text \<open>
  The invariant of the module state: at most one worker task exists, the flag tells whether it
  does, the requests finished, in work and waiting are, in this order, the requests submitted,
  and every finished request carries its completion signal or an error.
\<close>

definition wf :: "dispatcher \<Rightarrow> bool" where
  "wf d = (length (workers d) \<le> 1
     \<and> (processing_workers_started d \<longleftrightarrow> workers d \<noteq> [])
     \<and> map ident (finished d) @ map ident (running d) @ map ident (processing_queue d)
        = map ident (submitted d)
     \<and> list_all (\<lambda>r. completed r \<or> error r \<noteq> None) (finished d))"

lemma wf_initial: "wf (initial db)"
  by (simp add: wf_def initial_def running_def)

lemma workers_cases:
  assumes "length ws \<le> 1"
  obtains "ws = []" | "ws = [Waiting]" | r where "ws = [Busy r]"
proof (cases ws)
  case Nil
  then show ?thesis using that by simp
next
  case (Cons w ws')
  with assms have "ws' = []" by simp
  with Cons show ?thesis using that by (cases w) auto
qed

lemma wf_submit: "wf d \<Longrightarrow> wf (queue_processing_request uid p u t d)"
  by (auto simp: wf_def queue_processing_request_def start_processing_workers_def Let_def
      running_def ident_def ProcessingRequest_def)

lemma wf_take: "wf d \<Longrightarrow> wf (worker_take i d)"
proof -
  assume w: "wf d"
  then have "length (workers d) \<le> 1" by (simp add: wf_def)
  then show ?thesis
  proof (cases rule: workers_cases)
    case 1
    with w show ?thesis by (simp add: worker_take_def)
  next
    case 2
    with w show ?thesis
      by (cases "processing_queue d") (auto simp: worker_take_def wf_def running_def)
  next
    case (3 r)
    with w show ?thesis by (auto simp: worker_take_def)
  qed
qed

lemma wf_finish: "wf d \<Longrightarrow> wf (worker_finish i env d)"
proof -
  assume w: "wf d"
  then have "length (workers d) \<le> 1" by (simp add: wf_def)
  then show ?thesis
  proof (cases rule: workers_cases)
    case 1
    with w show ?thesis by (simp add: worker_finish_def)
  next
    case 2
    with w show ?thesis by (auto simp: worker_finish_def)
  next
    case (3 r)
    obtain r' db' esc where pj: "process_job env (store d) r = (r', db', esc)"
      by (cases "process_job env (store d) r") auto
    from pj have "ident r' = ident r" by (rule process_job_ident)
    moreover from pj have "completed r' \<or> error r' \<noteq> None" by (rule process_job_resolved)
    ultimately show ?thesis using w 3 pj
      by (auto simp: worker_finish_def wf_def running_def)
  qed
qed

lemma wf_message: "wf d \<Longrightarrow> wf (snd (handle_message_with_url fault uid p u t d))"
proof -
  assume w: "wf d"
  have i: "\<And>x. wf (d\<lparr>inline := x\<rparr>)" using w by (simp add: wf_def running_def)
  show ?thesis
    using w i wf_submit[OF w, of uid p u t]
    by (auto simp: handle_message_with_url_def Let_def split: option.splits)
qed

lemma wf_inline: "wf d \<Longrightarrow> wf (d\<lparr>inline := x\<rparr>)"
  by (simp add: wf_def running_def)

lemma wf_step: "wf d \<Longrightarrow> wf (step a d)"
  by (cases a) (simp_all add: wf_submit wf_take wf_finish wf_message wf_inline)

lemma wf_run: "wf d \<Longrightarrow> wf (run acts d)"
  unfolding run_def by (induction acts arbitrary: d) (simp_all add: wf_step)

lemma running_le_1: "wf d \<Longrightarrow> length (running d) \<le> 1"
proof -
  assume "wf d"
  then have "length (workers d) \<le> 1" by (simp add: wf_def)
  then show ?thesis by (cases rule: workers_cases) (simp_all add: running_def)
qed

text \<open>
  Claim C1, as the code has it, for the requests put into the processing queue: in every state
  the event loop can reach from the start, whatever the interleaving of messages, submissions,
  worker steps and handler tasks, at most one request of the queue is in work; the finished
  requests, the one in work and the waiting ones are, in this order, the submitted requests in
  their order of arrival; so when the request at position \<open>j\<close> of the arrival order has been
  taken from the queue, every request at an earlier position \<open>i\<close> is finished, and a finished
  request carries its completion signal or its error.
\<close>

theorem single_worker_fifo:
  "length (running (run acts (initial db))) \<le> 1
   \<and> map ident (finished (run acts (initial db))) @ map ident (running (run acts (initial db)))
       @ map ident (processing_queue (run acts (initial db)))
      = map ident (submitted (run acts (initial db)))
   \<and> (\<forall>i j. i < j \<and> j < length (finished (run acts (initial db)))
                        + length (running (run acts (initial db)))
        \<longrightarrow> i < length (finished (run acts (initial db)))
           \<and> (let a = finished (run acts (initial db)) ! i in completed a \<or> error a \<noteq> None))"
proof -
  let ?d = "run acts (initial db)"
  have w: "wf ?d" using wf_initial wf_run by blast
  have r: "length (running ?d) \<le> 1" using w by (rule running_le_1)
  have f: "\<And>i. i < length (finished ?d) \<Longrightarrow>
             completed (finished ?d ! i) \<or> error (finished ?d ! i) \<noteq> None"
    using w by (simp add: wf_def list_all_length)
  have o: "map ident (finished ?d) @ map ident (running ?d) @ map ident (processing_queue ?d)
           = map ident (submitted ?d)"
    using w by (simp add: wf_def)
  have "\<And>i j. i < j \<Longrightarrow> j < length (finished ?d) + length (running ?d) \<Longrightarrow> i < length (finished ?d)"
    using r by linarith
  with r o f show ?thesis by (simp add: Let_def)
qed

definition quiet_env :: "exn + nat option \<Rightarrow> job_env" where
  "quiet_env outcome = \<lparr>process_outcome = outcome, add_video_fault = None, increment_fault = None,
     copy_message_raises = None, copy_failed_reply_raises = None, failure_reply_raises = None,
     delete_loading_raises = None, error_reply_raises = None, now = 100\<rparr>"

definition empty_db :: database where
  "empty_db = \<lparr>videos = [], users = []\<rparr>"

definition two_jobs :: "action list" where
  "two_jobs = [Submit 1 True ''urlA'' ''tiktok'', Submit 2 True ''urlB'' ''tiktok'', Take 0,
               Finish 0 (quiet_env (Inr None)), Take 0]"

lemma two_jobs_state:
  "map url (finished (run two_jobs (initial empty_db))) = [''urlA'']
   \<and> map url (running (run two_jobs (initial empty_db))) = [''urlB'']
   \<and> processing_queue (run two_jobs (initial empty_db)) = []"
  by (simp add: two_jobs_def run_def initial_def empty_db_def queue_processing_request_def
      start_processing_workers_def ProcessingRequest_def worker_take_def worker_finish_def
      process_job_def job_try_def dispatch_process_def quiet_env_def truthy_def running_def Let_def)

theorem single_worker_fifo_witness:
  "(0::nat) < 1
   \<and> 1 < length (finished (run two_jobs (initial empty_db)))
          + length (running (run two_jobs (initial empty_db)))
   \<and> 0 < length (finished (run two_jobs (initial empty_db)))
   \<and> map url (finished (run two_jobs (initial empty_db))) = [''urlA'']
   \<and> map url (running (run two_jobs (initial empty_db))) = [''urlB'']"
proof -
  have l: "length (finished (run two_jobs (initial empty_db))) = 1
         \<and> length (running (run two_jobs (initial empty_db))) = 1"
    using two_jobs_state by (metis length_map length_Cons list.size(3) One_nat_def)
  from single_worker_fifo[of two_jobs empty_db] l two_jobs_state show ?thesis by simp
qed

definition two_twitter :: "action list" where
  "two_twitter = [Message None 1 True ''urlA'' ''twitter'', Message None 2 True ''urlB'' ''twitter'']"

definition queue_and_youtube :: "action list" where
  "queue_and_youtube = [Submit 1 True ''urlA'' ''tiktok'', Take 0,
                        Message None 2 True ''urlB'' ''youtube'']"

text \<open>
  Claim C1 as stated fails in its last part: YouTube and Twitter urls never enter the queue.
  Two users who send a Twitter url one after the other are both served by their handler tasks,
  each in its own exchange with the same responder at the same time; and a YouTube url is
  served by its handler task while the worker is busy with a request of the queue.
\<close>

theorem inline_jobs_counterexample:
  "inline (run two_twitter (initial empty_db)) = [(1, ''urlA'', ''twitter''), (2, ''urlB'', ''twitter'')]
   \<and> processing_queue (run two_twitter (initial empty_db)) = []
   \<and> map url (running (run queue_and_youtube (initial empty_db))) = [''urlA'']
   \<and> inline (run queue_and_youtube (initial empty_db)) = [(2, ''urlB'', ''youtube'')]"
  by (simp add: two_twitter_def queue_and_youtube_def run_def initial_def empty_db_def
      handle_message_with_url_def get_video_def get_video_body_def queue_processing_request_def
      start_processing_workers_def ProcessingRequest_def worker_take_def running_def Let_def)

subsection \<open>Faults inside one iteration\<close>

lemma process_job_completed:
  "error_reply_raises env = None \<Longrightarrow> completed (fst (process_job env db r))"
  by (auto simp: process_job_def job_try_def Let_def split: sum.splits option.splits if_splits prod.splits)

lemma process_job_fault_recorded:
  "dispatch_process env r = Inl e \<Longrightarrow> error (fst (process_job env db r)) = Some e"
  by (auto simp: process_job_def job_try_def Let_def split: option.splits)

lemma worker_finish_continues:
  "i < length (workers d) \<Longrightarrow> workers (worker_finish i env d) ! i = Waiting"
  by (auto simp: worker_finish_def split: worker.splits prod.splits)

text \<open>
  A requester who cannot be written to (one who has blocked the bot, say): processing gives no
  media, the failure reply raises, and the reply of the \<open>except\<close> clause raises as well.
\<close>

definition unreachable_user_env :: job_env where
  "unreachable_user_env = \<lparr>process_outcome = Inr None, add_video_fault = None,
     increment_fault = None, copy_message_raises = None, copy_failed_reply_raises = None,
     failure_reply_raises = Some (OtherError ''Forbidden: bot was blocked by the user''),
     delete_loading_raises = None,
     error_reply_raises = Some (OtherError ''Forbidden: bot was blocked by the user''), now = 100\<rparr>"

definition blocked_run :: dispatcher where
  "blocked_run = run [Submit 1 True ''urlA'' ''tiktok'', Take 0, Finish 0 unreachable_user_env]
                     (initial empty_db)"

text \<open>
  Claim C3 at this input: the fault is stored in the request and the worker is back at the head
  of its loop, but the second exception leaves the \<open>except\<close> clause before
  \<open>request.completed.set()\<close> is reached: the request ends with its completion signal unset and
  the marker of the running user still naming it.
\<close>

theorem completion_signal_not_set:
  "workers blocked_run = [Waiting]
   \<and> map error (finished blocked_run) = [Some (OtherError ''Forbidden: bot was blocked by the user'')]
   \<and> map completed (finished blocked_run) = [False]
   \<and> current_processing_user blocked_run = Some 1"
  by (simp add: blocked_run_def run_def initial_def empty_db_def queue_processing_request_def
      start_processing_workers_def ProcessingRequest_def worker_take_def worker_finish_def
      process_job_def job_try_def dispatch_process_def unreachable_user_env_def truthy_def Let_def)

subsection \<open>The cache entry of a processed request\<close>


























section \<open>Waiting for the responder (userbot/client.py)\<close>

text \<open>
  A message of a conversation as the pollers read it: its id, the truth values of
  \<open>message.video\<close>, \<open>message.photo\<close> and \<open>message.audio\<close>, the mime type of its
  document if it has one, whether \<open>message.media\<close> is set and whether it is a
  \<open>MessageMediaWebPage\<close> (a link preview), and the text \<open>message.message\<close>.
\<close>

record tg_message =
  msg_id :: nat
  video :: bool
  photo :: bool
  audio :: bool
  document :: "string option"
  has_media :: bool
  web_page :: bool
  message_text :: pystr

definition startswith :: "string \<Rightarrow> string \<Rightarrow> bool" where
  "startswith s p = (take (length p) s = p)"

definition mime_is :: "tg_message \<Rightarrow> string \<Rightarrow> bool" where
  "mime_is m p = (case document m of None \<Rightarrow> False | Some mt \<Rightarrow> startswith mt p)"

definition is_video :: "tg_message \<Rightarrow> bool" where
  "is_video m = (video m \<or> mime_is m ''video/'')"

definition is_photo :: "tg_message \<Rightarrow> bool" where
  "is_photo m = (photo m \<or> mime_is m ''image/'')"

definition is_audio :: "tg_message \<Rightarrow> bool" where
  "is_audio m = (audio m \<or> mime_is m ''audio/'')"

text \<open>
  What a wait returns: Python's None, one message, or the list of all media messages.
\<close>

datatype poll_result = NoResponse | OneMedia tg_message | AllMedia "tg_message list"

text \<open>
  The \<open>for\<close> loop of \<open>_wait_for_video_response\<close> over one listing: the messages kept in
  \<open>media_messages\<close>. \<open>youtube\<close> is \<open>bot_username == self.youtube_bot_username\<close>.
\<close>

definition video_media_messages :: "bool \<Rightarrow> nat \<Rightarrow> tg_message list \<Rightarrow> tg_message list" where
  "video_media_messages youtube sent_message_id messages =
     filter (\<lambda>m. msg_id m > sent_message_id
                \<and> (youtube \<longrightarrow> is_video m \<or> is_audio m)
                \<and> (is_video m \<or> is_photo m \<or> is_audio m)) messages"

text \<open>The end of an iteration: sort by id, return all or the last; None stands for no return.\<close>

definition pick_media :: "bool \<Rightarrow> tg_message list \<Rightarrow> poll_result option" where
  "pick_media return_all media_messages =
     (if media_messages = [] then None
      else if return_all then Some (AllMedia (sort_key msg_id media_messages))
      else Some (OneMedia (last (sort_key msg_id media_messages))))"

text \<open>
  The \<open>try\<close> block of one iteration, given what \<open>get_messages\<close> with its limit (10
  here, 20 for Twitter) returns or raises: an exception is logged and the loop goes on.
\<close>

definition video_iteration :: "bool \<Rightarrow> nat \<Rightarrow> bool \<Rightarrow> exn + tg_message list \<Rightarrow> poll_result option" where
  "video_iteration youtube sent_message_id return_all listing =
     (case listing of
        Inl e \<Rightarrow> None
      | Inr messages \<Rightarrow>
          pick_media return_all (video_media_messages youtube sent_message_id messages))"

definition negative_words :: "pystr list" where
  "negative_words = [cp ''no media'', cp ''not found'', cp ''error'', cp ''failed'', cp ''no video'',
                     cp ''no photo'']"

text \<open>The \<open>for\<close> loop of \<open>_wait_for_twitter_response\<close>: link previews are skipped.\<close>

definition twitter_media_messages :: "nat \<Rightarrow> tg_message list \<Rightarrow> tg_message list" where
  "twitter_media_messages sent_message_id messages =
     filter (\<lambda>m. msg_id m > sent_message_id \<and> \<not> web_page m \<and> (is_video m \<or> is_photo m)) messages"

definition twitter_text_messages :: "nat \<Rightarrow> tg_message list \<Rightarrow> tg_message list" where
  "twitter_text_messages sent_message_id messages =
     filter (\<lambda>m. msg_id m > sent_message_id \<and> \<not> web_page m \<and> \<not> (is_video m \<or> is_photo m)
                \<and> message_text m \<noteq> [] \<and> \<not> has_media m
                \<and> list_ex (\<lambda>keyword. contains (lower (message_text m)) keyword) negative_words)
       messages"

definition twitter_iteration :: "nat \<Rightarrow> bool \<Rightarrow> exn + tg_message list \<Rightarrow> poll_result option" where
  "twitter_iteration sent_message_id return_all listing =
     (case listing of
        Inl e \<Rightarrow> None
      | Inr messages \<Rightarrow>
          (case pick_media return_all (twitter_media_messages sent_message_id messages) of
             Some res \<Rightarrow> Some res
           | None \<Rightarrow>
               if twitter_text_messages sent_message_id messages \<noteq> [] then Some NoResponse
               else None))"

text \<open>
  The clock of the event loop counts whole seconds from \<open>start_time\<close>. The conversation is
  a function of the time of the call: what \<open>get_messages\<close> returns or raises when called at
  that time, and how long the call takes. The \<open>while\<close> loop of both waits: check the clock,
  run the iteration (\<open>attempt\<close> gives its outcome and its duration), return or sleep
  \<open>interval\<close> seconds. The value is the result with the time of the return; None is a loop
  that never returns.
\<close>

type_synonym conversation = "nat \<Rightarrow> (exn + tg_message list) \<times> nat"

partial_function (option) poll_loop ::
    "(nat \<Rightarrow> poll_result option \<times> nat) \<Rightarrow> nat \<Rightarrow> nat \<Rightarrow> nat \<Rightarrow> (poll_result \<times> nat) option" where
  "poll_loop attempt interval max_wait_time elapsed =
     (if elapsed < max_wait_time then
        (case fst (attempt elapsed) of
           Some res \<Rightarrow> Some (res, elapsed + snd (attempt elapsed))
         | None \<Rightarrow>
             poll_loop attempt interval max_wait_time (elapsed + snd (attempt elapsed) + interval))
      else Some (NoResponse, elapsed))"

definition wait_for_video_response ::
    "conversation \<Rightarrow> bool \<Rightarrow> nat \<Rightarrow> nat \<Rightarrow> bool \<Rightarrow> (poll_result \<times> nat) option" where
  "wait_for_video_response conv youtube sent_message_id max_wait_time return_all =
     poll_loop (\<lambda>t. (video_iteration youtube sent_message_id return_all (fst (conv t)), snd (conv t)))
       3 max_wait_time 0"

definition wait_for_twitter_response ::
    "conversation \<Rightarrow> nat \<Rightarrow> nat \<Rightarrow> bool \<Rightarrow> nat \<Rightarrow> (poll_result \<times> nat) option" where
  "wait_for_twitter_response conv sent_message_id max_wait_time return_all poll_interval =
     poll_loop (\<lambda>t. (twitter_iteration sent_message_id return_all (fst (conv t)), snd (conv t)))
       poll_interval max_wait_time 0"

subsection \<open>The wait returns\<close>

lemma poll_loop_returns:
  assumes "0 < interval"
  shows "\<exists>r. poll_loop attempt interval T elapsed = Some r"
proof (induction "T - elapsed" arbitrary: elapsed rule: less_induct)
  case less
  show ?case
  proof (cases "elapsed < T")
    case False
    then show ?thesis by (subst poll_loop.simps) simp
  next
    case True
    show ?thesis
    proof (cases "fst (attempt elapsed)")
      case (Some res)
      with True show ?thesis by (subst poll_loop.simps) simp
    next
      case None
      have "T - (elapsed + snd (attempt elapsed) + interval) < T - elapsed"
        using True assms by simp
      then obtain r where
        "poll_loop attempt interval T (elapsed + snd (attempt elapsed) + interval) = Some r"
        using less by blast
      with True None show ?thesis by (subst poll_loop.simps) simp
    qed
  qed
qed










subsection \<open>The watermark\<close>

fun messages_of :: "poll_result \<Rightarrow> tg_message list" where
  "messages_of NoResponse = []"
| "messages_of (OneMedia m) = [m]"
| "messages_of (AllMedia ms) = ms"

text \<open>The listing without the messages up to the request message.\<close>

definition newer_only :: "nat \<Rightarrow> conversation \<Rightarrow> conversation" where
  "newer_only sent conv t =
     (case fst (conv t) of
        Inl e \<Rightarrow> (Inl e, snd (conv t))
      | Inr messages \<Rightarrow> (Inr (filter (\<lambda>m. msg_id m > sent) messages), snd (conv t)))"

lemma pick_media_newer:
  assumes "pick_media return_all ms = Some res" and "\<forall>m \<in> set ms. msg_id m > sent"
  shows "\<forall>m \<in> set (messages_of res). msg_id m > sent"
proof -
  from assms(1) have ne: "ms \<noteq> []" by (auto simp: pick_media_def split: if_splits)
  then have "sort_key msg_id ms \<noteq> []" by (metis length_sort length_0_conv)
  then have "last (sort_key msg_id ms) \<in> set (sort_key msg_id ms)" by (rule last_in_set)
  with assms show ?thesis by (auto simp: pick_media_def split: if_splits)
qed

lemma video_iteration_newer:
  "video_iteration youtube sent return_all listing = Some res \<Longrightarrow>
   \<forall>m \<in> set (messages_of res). msg_id m > sent"
  by (cases listing)
     (auto simp: video_iteration_def video_media_messages_def dest!: pick_media_newer[where sent = sent])

lemma twitter_iteration_newer:
  "twitter_iteration sent return_all listing = Some res \<Longrightarrow>
   \<forall>m \<in> set (messages_of res). msg_id m > sent"
  by (cases listing)
     (auto simp: twitter_iteration_def twitter_media_messages_def
           split: option.splits if_splits dest!: pick_media_newer[where sent = sent])

lemma poll_loop_result:
  assumes r: "poll_loop attempt interval T elapsed = Some (res, tf)"
    and a: "\<And>t r. fst (attempt t) = Some r \<Longrightarrow> P r" and n: "P NoResponse"
  shows "P res"
proof -
  have "(\<forall>t r. fst (attempt t) = Some r \<longrightarrow> P r) \<longrightarrow> P (fst (res, tf))"
    by (rule poll_loop.raw_induct
          [where P = "\<lambda>a i T e y. (\<forall>t r. fst (a t) = Some r \<longrightarrow> P r) \<longrightarrow> P (fst y)", OF _ r])
       (auto simp: n split: if_splits option.splits)
  with a show ?thesis by simp
qed

lemma iteration_newer_only:
  "video_iteration youtube sent return_all (fst (newer_only sent conv t))
     = video_iteration youtube sent return_all (fst (conv t))"
  "twitter_iteration sent return_all (fst (newer_only sent conv t))
     = twitter_iteration sent return_all (fst (conv t))"
  "snd (newer_only sent conv t) = snd (conv t)"
  by (cases "fst (conv t)";
      simp add: newer_only_def video_iteration_def twitter_iteration_def video_media_messages_def
        twitter_media_messages_def twitter_text_messages_def conj_commute conj_left_commute cong: conj_cong)+

text \<open>
  Claim C8: whatever a wait returns, one message or a list, consists of messages whose id is
  above the id of the request message; and the messages with an id up to that of the request
  message play no part: the wait gives the same result, at the same time, on the conversation
  with these messages removed from every listing.
\<close>

theorem watermark_respected:
  "(wait_for_video_response conv youtube sent T return_all = Some (res, tf) \<longrightarrow>
      (\<forall>m \<in> set (messages_of res). msg_id m > sent))
   \<and> (wait_for_twitter_response conv sent T return_all poll_interval = Some (res', tf') \<longrightarrow>
      (\<forall>m \<in> set (messages_of res'). msg_id m > sent))
   \<and> wait_for_video_response (newer_only sent conv) youtube sent T return_all
      = wait_for_video_response conv youtube sent T return_all
   \<and> wait_for_twitter_response (newer_only sent conv) sent T return_all poll_interval
      = wait_for_twitter_response conv sent T return_all poll_interval"
proof -
  have 1: "wait_for_video_response conv youtube sent T return_all = Some (res, tf) \<Longrightarrow>
           \<forall>m \<in> set (messages_of res). msg_id m > sent"
    unfolding wait_for_video_response_def
    by (erule poll_loop_result) (auto dest: video_iteration_newer)
  have 2: "wait_for_twitter_response conv sent T return_all poll_interval = Some (res', tf') \<Longrightarrow>
           \<forall>m \<in> set (messages_of res'). msg_id m > sent"
    unfolding wait_for_twitter_response_def
    by (erule poll_loop_result) (auto dest: twitter_iteration_newer)
  have 3: "wait_for_video_response (newer_only sent conv) youtube sent T return_all
           = wait_for_video_response conv youtube sent T return_all"
    by (simp add: wait_for_video_response_def iteration_newer_only)
  have 4: "wait_for_twitter_response (newer_only sent conv) sent T return_all poll_interval
           = wait_for_twitter_response conv sent T return_all poll_interval"
    by (simp add: wait_for_twitter_response_def iteration_newer_only)
  from 1 2 3 4 show ?thesis by blast
qed

definition video_message :: "nat \<Rightarrow> tg_message" where
  "video_message i = \<lparr>msg_id = i, video = True, photo = False, audio = False,
     document = Some ''video/mp4'', has_media = True, web_page = False, message_text = []\<rparr>"

definition replay_conv :: conversation where
  "replay_conv t = (Inr [video_message 9, video_message 5], 0)"

theorem watermark_respected_witness:
  "wait_for_video_response replay_conv False 7 10 False = Some (OneMedia (video_message 9), 0)
   \<and> wait_for_twitter_response replay_conv 7 10 True 5 = Some (AllMedia [video_message 9], 0)
   \<and> messages_of (OneMedia (video_message 9)) = [video_message 9]
   \<and> msg_id (video_message 9) > 7"
proof -
  have v: "wait_for_video_response replay_conv False 7 10 False = Some (OneMedia (video_message 9), 0)"
    by (simp add: wait_for_video_response_def poll_loop.simps replay_conv_def video_iteration_def
        video_media_messages_def pick_media_def video_message_def is_video_def)
  have w: "wait_for_twitter_response replay_conv 7 10 True 5 = Some (AllMedia [video_message 9], 0)"
    by (simp add: wait_for_twitter_response_def poll_loop.simps replay_conv_def
        twitter_iteration_def twitter_media_messages_def pick_media_def video_message_def
        is_video_def)
  from watermark_respected
         [where conv = replay_conv and youtube = False and sent = 7 and T = 10
            and return_all = False and res = "OneMedia (video_message 9)" and tf = 0]
       watermark_respected
         [where conv = replay_conv and sent = 7 and T = 10 and return_all = True
            and poll_interval = 5 and res' = "AllMedia [video_message 9]" and tf' = 0] v w
  show ?thesis by simp
qed

section \<open>Processing a url through a responder (userbot/client.py)\<close>


























subsection \<open>Rate limits\<close>







subsection \<open>Session recovery\<close>











end
